theory Spec2Isabelle
  imports Complex_Main "HOL-Library.Multiset"
begin

section \<open>Data model (src/types.d.ts)\<close>

text \<open>
  \<^verbatim>\<open>IMovie\<close> is the descriptor supplied by the content lookup, \<^verbatim>\<open>WatchlistItem\<close> the saved
  reference.  Both interfaces declare \<^verbatim>\<open>id\<close> and \<^verbatim>\<open>poster_path\<close>; the fields of the
  descriptor carry the prefix \<open>movie_\<close> here, and \<^verbatim>\<open>id\<close> and \<^verbatim>\<open>type\<close> of the item are
  \<open>item_id\<close> and \<open>item_type\<close> (\<open>id\<close> is the identity function of HOL).  A field declared
  \<^verbatim>\<open>string\<close> is a \<open>string\<close>; \<^verbatim>\<open>addedAt\<close> holds the integer that \<^verbatim>\<open>Date.now()\<close> returned.
\<close>

datatype media_type = Movie | Tv

record IMovie =
  movie_id :: string
  movie_poster_path :: string
  original_title :: string
  name :: string
  overview :: string
  backdrop_path :: string

record WatchlistItem =
  item_id :: string
  item_type :: media_type
  title :: string
  poster_path :: string
  addedAt :: int

datatype sort_by = DateNew | DateOld | Title

datatype filter_by = FilterAll | FilterType media_type

section \<open>The updaters of the provider (watchlistContext.tsx)\<close>

text \<open>
  \<^verbatim>\<open>a || b\<close> on two strings: the empty string is the only falsy string.
\<close>

definition js_or :: "string \<Rightarrow> string \<Rightarrow> string" where
  "js_or a b = (if a \<noteq> [] then a else b)"

text \<open>
  The object literal \<^verbatim>\<open>newItem\<close> of \<^verbatim>\<open>addToWatchlist\<close>; \<open>now\<close> is the value of
  \<^verbatim>\<open>Date.now()\<close> at the moment the updater runs.
\<close>

definition newItem :: "IMovie \<Rightarrow> media_type \<Rightarrow> int \<Rightarrow> WatchlistItem" where
  "newItem movie type now =
     \<lparr> item_id = movie_id movie,
       item_type = type,
       title = js_or (original_title movie) (name movie),
       poster_path = movie_poster_path movie,
       addedAt = now \<rparr>"

text \<open>
  The function handed to \<^verbatim>\<open>setItems\<close> by \<^verbatim>\<open>addToWatchlist\<close>:
  \<^verbatim>\<open>prev.some((item) => item.id === movie.id) ? prev : [newItem, ...prev]\<close>.
\<close>

definition addToWatchlist_updater ::
  "IMovie \<Rightarrow> media_type \<Rightarrow> int \<Rightarrow> WatchlistItem list \<Rightarrow> WatchlistItem list" where
  "addToWatchlist_updater movie type now prev =
     (if list_ex (\<lambda>item. item_id item = movie_id movie) prev then prev
      else newItem movie type now # prev)"

text \<open>
  The function handed to \<^verbatim>\<open>setItems\<close> by \<^verbatim>\<open>removeFromWatchlist\<close>:
  \<^verbatim>\<open>prev.filter((item) => item.id !== id)\<close>.
\<close>

definition removeFromWatchlist_updater ::
  "string \<Rightarrow> WatchlistItem list \<Rightarrow> WatchlistItem list" where
  "removeFromWatchlist_updater i prev = filter (\<lambda>item. item_id item \<noteq> i) prev"

text \<open>
  A run of one of the two updaters: the arguments its closure had captured and, for an
  addition, the value that \<^verbatim>\<open>Date.now()\<close> returned while it ran.  \<open>same_reference u prev\<close> tells
  whether the updater returns the very array it was given (\<^verbatim>\<open>return prev\<close>) rather than a
  new one; \<^verbatim>\<open>filter\<close> always builds a new array.
\<close>

datatype update = Add IMovie media_type int | Remove string

fun run_update :: "update \<Rightarrow> WatchlistItem list \<Rightarrow> WatchlistItem list" where
  "run_update (Add movie type now) prev = addToWatchlist_updater movie type now prev"
| "run_update (Remove i) prev = removeFromWatchlist_updater i prev"

fun same_reference :: "update \<Rightarrow> WatchlistItem list \<Rightarrow> bool" where
  "same_reference (Add movie type now) prev = list_ex (\<lambda>item. item_id item = movie_id movie) prev"
| "same_reference (Remove i) prev = False"

definition run_updates :: "update list \<Rightarrow> WatchlistItem list \<Rightarrow> WatchlistItem list" where
  "run_updates us c = foldl (\<lambda>prev u. run_update u prev) c us"

section \<open>JSON text (JSON.parse, JSON.stringify)\<close>

text \<open>
  The Store serialises with \<^verbatim>\<open>JSON.stringify\<close> and reads back with \<^verbatim>\<open>JSON.parse\<close>, both of
  the host.  \<open>json\<close> is the value that \<^verbatim>\<open>JSON.parse\<close> builds.  A \<open>string\<close> holds the text as
  UTF-8, so that a character beyond ASCII is a run of bytes from \<open>0x80\<close> on, none of which
  is a character of the JSON syntax.  A number has its exact decimal value; the rounding to
  a double is left out.  An object keeps its members in the order of the text.
\<close>

datatype json =
    JNull
  | JBool bool
  | JNumber rat
  | JString string
  | JArray "json list"
  | JObject "(string \<times> json) list"

text \<open>
  \<^verbatim>\<open>JSON.parse\<close> accepts the JSON grammar of ECMA-404.  The text is first cut into tokens:
  white space is skipped, a string literal is decoded (a raw control character ends the
  parse, an escape \<^verbatim>\<open>\uXXXX\<close> yields the UTF-8 bytes of that code unit), a number literal is
  evaluated.  \<open>None\<close> is the \<^verbatim>\<open>SyntaxError\<close>.
\<close>

datatype token =
    TLBrace | TRBrace | TLBracket | TRBracket | TColon | TComma
  | TStr string | TNum rat | TTrue | TFalse | TNull

definition is_ws :: "char \<Rightarrow> bool" where
  "is_ws c \<longleftrightarrow> c = CHR 0x20 \<or> c = CHR 0x09 \<or> c = CHR 0x0A \<or> c = CHR 0x0D"

definition is_digit :: "char \<Rightarrow> bool" where
  "is_digit c \<longleftrightarrow> (48::nat) \<le> of_char c \<and> of_char c \<le> (57::nat)"

definition digit_val :: "char \<Rightarrow> nat" where
  "digit_val c = of_char c - 48"

definition hex_val :: "char \<Rightarrow> nat option" where
  "hex_val c =
     (let n = of_char c :: nat in
      if 48 \<le> n \<and> n \<le> 57 then Some (n - 48)
      else if 97 \<le> n \<and> n \<le> 102 then Some (n - 87)
      else if 65 \<le> n \<and> n \<le> 70 then Some (n - 55)
      else None)"

definition hex4 :: "char \<Rightarrow> char \<Rightarrow> char \<Rightarrow> char \<Rightarrow> nat option" where
  "hex4 a b c d =
     (case (hex_val a, hex_val b, hex_val c, hex_val d) of
        (Some x, Some y, Some z, Some w) \<Rightarrow> Some (((x * 16 + y) * 16 + z) * 16 + w)
      | _ \<Rightarrow> None)"

definition utf8 :: "nat \<Rightarrow> string" where
  "utf8 n =
     (if n < 0x80 then [char_of n]
      else if n < 0x800 then [char_of (0xC0 + n div 64), char_of (0x80 + n mod 64)]
      else [char_of (0xE0 + n div 4096), char_of (0x80 + n div 64 mod 64),
            char_of (0x80 + n mod 64)])"

definition unescape :: "char \<Rightarrow> char option" where
  "unescape e =
     (if e = CHR 0x22 then Some (CHR 0x22)
      else if e = CHR 0x5C then Some (CHR 0x5C)
      else if e = CHR ''/'' then Some (CHR ''/'')
      else if e = CHR ''b'' then Some (CHR 0x08)
      else if e = CHR ''f'' then Some (CHR 0x0C)
      else if e = CHR ''n'' then Some (CHR 0x0A)
      else if e = CHR ''r'' then Some (CHR 0x0D)
      else if e = CHR ''t'' then Some (CHR 0x09)
      else None)"

definition prepend :: "string \<Rightarrow> (string \<times> string) option \<Rightarrow> (string \<times> string) option" where
  "prepend p r = (case r of None \<Rightarrow> None | Some (s, rest) \<Rightarrow> Some (p @ s, rest))"

fun lex_string :: "string \<Rightarrow> (string \<times> string) option" where
  "lex_string [] = None"
| "lex_string (c # cs) =
     (if c = CHR 0x22 then Some ([], cs)
      else if c = CHR 0x5C then
        (case cs of
           [] \<Rightarrow> None
         | e # r \<Rightarrow>
             if e = CHR ''u'' then
               (case r of
                  h1 # h2 # h3 # h4 # r' \<Rightarrow>
                    (case hex4 h1 h2 h3 h4 of
                       None \<Rightarrow> None
                     | Some n \<Rightarrow> prepend (utf8 n) (lex_string r'))
                | _ \<Rightarrow> None)
             else
               (case unescape e of
                  None \<Rightarrow> None
                | Some d \<Rightarrow> prepend [d] (lex_string r)))
      else if (of_char c :: nat) < 0x20 then None
      else prepend [c] (lex_string cs))"

definition nat_of_digits :: "string \<Rightarrow> nat" where
  "nat_of_digits ds = foldl (\<lambda>a c. 10 * a + digit_val c) 0 ds"

definition pow10 :: "bool \<Rightarrow> nat \<Rightarrow> rat" where
  "pow10 negative k = (if negative then 1 / 10 ^ k else 10 ^ k)"

definition lex_fraction :: "string \<Rightarrow> (rat \<times> string) option" where
  "lex_fraction s =
     (case s of
        c # r \<Rightarrow>
          if c = CHR ''.'' then
            (let fs = takeWhile is_digit r in
             if fs = [] then None
             else Some (of_nat (nat_of_digits fs) / 10 ^ length fs, dropWhile is_digit r))
          else Some (0, s)
      | [] \<Rightarrow> Some (0, s))"

definition lex_exponent :: "string \<Rightarrow> (rat \<times> string) option" where
  "lex_exponent s =
     (case s of
        c # r \<Rightarrow>
          if c = CHR ''e'' \<or> c = CHR ''E'' then
            (let negative = (case r of [] \<Rightarrow> False | g # _ \<Rightarrow> g = CHR ''-'');
                 r' = (case r of [] \<Rightarrow> r | g # t \<Rightarrow> if g = CHR ''-'' \<or> g = CHR ''+'' then t else r);
                 es = takeWhile is_digit r' in
             if es = [] then None
             else Some (pow10 negative (nat_of_digits es), dropWhile is_digit r'))
          else Some (1, s)
      | [] \<Rightarrow> Some (1, s))"

definition lex_number :: "string \<Rightarrow> (rat \<times> string) option" where
  "lex_number s =
     (let negative = (case s of [] \<Rightarrow> False | c # _ \<Rightarrow> c = CHR ''-'');
          s1 = (if negative then tl s else s);
          ds = takeWhile is_digit s1 in
      if ds = [] \<or> (1 < length ds \<and> hd ds = CHR ''0'') then None
      else
        (case lex_fraction (dropWhile is_digit s1) of
           None \<Rightarrow> None
         | Some (f, s2) \<Rightarrow>
             (case lex_exponent s2 of
                None \<Rightarrow> None
              | Some (e, s3) \<Rightarrow>
                  Some ((if negative then - 1 else 1) * (of_nat (nat_of_digits ds) + f) * e, s3))))"

definition cons_token :: "token \<Rightarrow> token list option \<Rightarrow> token list option" where
  "cons_token t r = map_option (Cons t) r"

text \<open>Each scanner consumes at least one character, which is why \<open>tokenize\<close> terminates.\<close>

lemma prepend_Some:
  "prepend p r = Some (s, rest) \<longleftrightarrow> (\<exists>s'. r = Some (s', rest) \<and> s = p @ s')"
  by (auto simp: prepend_def split: option.splits)

lemma lex_string_shorter: "lex_string cs = Some (s, rest) \<Longrightarrow> length rest < length cs"
proof (induction cs arbitrary: s rest rule: length_induct)
  case (1 cs)
  have IH: "length rest' < length ys"
    if "length ys < length cs" "lex_string ys = Some (s', rest')" for ys s' rest'
    using 1(1) that by blast
  show ?case
  proof (cases cs)
    case Nil
    with 1(2) show ?thesis by simp
  next
    case (Cons c cs')
    with 1(2) show ?thesis
      by (auto simp: prepend_Some split: if_splits list.splits option.splits dest!: IH[rotated])
  qed
qed

lemma length_dropWhile_less:
  "takeWhile P xs \<noteq> [] \<Longrightarrow> length (dropWhile P xs) < length xs"
  by (cases xs) (auto simp: less_Suc_eq_le length_dropWhile_le split: if_splits)

lemma lex_fraction_shorter: "lex_fraction s = Some (f, rest) \<Longrightarrow> length rest \<le> length s"
  by (auto simp: lex_fraction_def Let_def length_dropWhile_le le_SucI split: list.splits if_splits)

lemma lex_exponent_shorter: "lex_exponent s = Some (e, rest) \<Longrightarrow> length rest \<le> length s"
  by (auto simp: lex_exponent_def Let_def le_SucI length_dropWhile_le 
       intro: order_trans[OF length_dropWhile_le] split: list.splits if_splits)

lemma lex_number_shorter: "lex_number s = Some (n, rest) \<Longrightarrow> length rest < length s"
proof -
  assume a: "lex_number s = Some (n, rest)"
  define s1 where "s1 = (if (case s of [] \<Rightarrow> False | c # _ \<Rightarrow> c = CHR ''-'') then tl s else s)"
  have s1: "length s1 \<le> length s" by (simp add: s1_def)
  from a have ne: "takeWhile is_digit s1 \<noteq> []"
    by (auto simp: lex_number_def Let_def s1_def split: if_splits)
  from a obtain f s2 e where
    f: "lex_fraction (dropWhile is_digit s1) = Some (f, s2)" and e: "lex_exponent s2 = Some (e, rest)"
    by (auto simp: lex_number_def Let_def s1_def split: if_splits option.splits)
  from length_dropWhile_less[OF ne] lex_fraction_shorter[OF f] lex_exponent_shorter[OF e] s1
  show ?thesis by linarith
qed

function tokenize :: "string \<Rightarrow> token list option" where
  "tokenize [] = Some []"
| "tokenize (c # cs) =
     (if is_ws c then tokenize cs
      else if c = CHR ''{'' then cons_token TLBrace (tokenize cs)
      else if c = CHR ''}'' then cons_token TRBrace (tokenize cs)
      else if c = CHR ''['' then cons_token TLBracket (tokenize cs)
      else if c = CHR '']'' then cons_token TRBracket (tokenize cs)
      else if c = CHR '':'' then cons_token TColon (tokenize cs)
      else if c = CHR '','' then cons_token TComma (tokenize cs)
      else if c = CHR 0x22 then
        (case lex_string cs of
           None \<Rightarrow> None
         | Some (s, rest) \<Rightarrow> cons_token (TStr s) (tokenize rest))
      else if c = CHR ''-'' \<or> is_digit c then
        (case lex_number (c # cs) of
           None \<Rightarrow> None
         | Some (n, rest) \<Rightarrow> cons_token (TNum n) (tokenize rest))
      else if take 4 (c # cs) = ''true'' then cons_token TTrue (tokenize (drop 3 cs))
      else if take 5 (c # cs) = ''false'' then cons_token TFalse (tokenize (drop 4 cs))
      else if take 4 (c # cs) = ''null'' then cons_token TNull (tokenize (drop 3 cs))
      else None)"
  by pat_completeness auto
termination
proof (relation "measure length")
  fix c cs x2 x y
  assume "lex_string cs = Some x2" "(x, y) = x2"
  then show "(y, c # cs) \<in> measure length"
    using lex_string_shorter[of cs x y] by simp
next
  fix c cs x2 x y
  assume "lex_number (c # cs) = Some x2" "(x, y) = x2"
  then show "(y, c # cs) \<in> measure length"
    using lex_number_shorter[of "c # cs" x y] by simp
qed simp_all

text \<open>
  The tokens drive an automaton with a stack of the arrays and objects that are still
  open: \<open>FArr\<close> holds the elements read so far and \<open>FObj\<close> the members read so far, latest
  first; \<open>FKey\<close> holds the key whose value is being read.  The mode says what may come
  next.
\<close>

datatype frame = FArr "json list" | FObj "(string \<times> json) list" | FKey string

datatype mode = MValue | MFirstElem | MFirstKey | MKey | MColon | MAfter | MDone json

type_synonym pstate = "mode \<times> frame list"

fun complete :: "json \<Rightarrow> frame list \<Rightarrow> pstate option" where
  "complete v [] = Some (MDone v, [])"
| "complete v (FArr es # st) = Some (MAfter, FArr (v # es) # st)"
| "complete v (FKey k # FObj ms # st) = Some (MAfter, FObj ((k, v) # ms) # st)"
| "complete v _ = None"

fun start_value :: "token \<Rightarrow> frame list \<Rightarrow> pstate option" where
  "start_value (TStr s) st = complete (JString s) st"
| "start_value (TNum n) st = complete (JNumber n) st"
| "start_value TTrue st = complete (JBool True) st"
| "start_value TFalse st = complete (JBool False) st"
| "start_value TNull st = complete JNull st"
| "start_value TLBracket st = Some (MFirstElem, FArr [] # st)"
| "start_value TLBrace st = Some (MFirstKey, FObj [] # st)"
| "start_value _ st = None"

fun close_array :: "frame list \<Rightarrow> pstate option" where
  "close_array (FArr es # st) = complete (JArray (rev es)) st"
| "close_array _ = None"

fun close_object :: "frame list \<Rightarrow> pstate option" where
  "close_object (FObj ms # st) = complete (JObject (rev ms)) st"
| "close_object _ = None"

fun step :: "pstate \<Rightarrow> token \<Rightarrow> pstate option" where
  "step (MValue, st) t = start_value t st"
| "step (MFirstElem, st) t = (if t = TRBracket then close_array st else start_value t st)"
| "step (MFirstKey, st) t =
     (case t of TStr k \<Rightarrow> Some (MColon, FKey k # st) | TRBrace \<Rightarrow> close_object st | _ \<Rightarrow> None)"
| "step (MKey, st) t = (case t of TStr k \<Rightarrow> Some (MColon, FKey k # st) | _ \<Rightarrow> None)"
| "step (MColon, st) t = (if t = TColon then Some (MValue, st) else None)"
| "step (MAfter, st) t =
     (case t of
        TComma \<Rightarrow>
          (case st of FArr es # _ \<Rightarrow> Some (MValue, st) | FObj ms # _ \<Rightarrow> Some (MKey, st)
           | _ \<Rightarrow> None)
      | TRBracket \<Rightarrow> close_array st
      | TRBrace \<Rightarrow> close_object st
      | _ \<Rightarrow> None)"
| "step (MDone v, st) t = None"

fun run :: "pstate \<Rightarrow> token list \<Rightarrow> pstate option" where
  "run s [] = Some s"
| "run s (t # ts) = (case step s t of None \<Rightarrow> None | Some s' \<Rightarrow> run s' ts)"

definition parse_tokens :: "token list \<Rightarrow> json option" where
  "parse_tokens ts = (case run (MValue, []) ts of Some (MDone v, _) \<Rightarrow> Some v | _ \<Rightarrow> None)"

definition JSON_parse :: "string \<Rightarrow> json option" where
  "JSON_parse text = (case tokenize text of None \<Rightarrow> None | Some ts \<Rightarrow> parse_tokens ts)"

text \<open>
  \<^verbatim>\<open>JSON.stringify\<close> is only ever applied to a \<^verbatim>\<open>WatchlistItem[]\<close>: an array of objects with
  the five properties in the order in which \<^verbatim>\<open>newItem\<close> lists them.  A string is quoted with
  the escapes of \<^verbatim>\<open>QuoteJSONString\<close>; \<^verbatim>\<open>addedAt\<close> is an integer and is printed in decimal,
  as a number of the size of \<^verbatim>\<open>Date.now()\<close> is.  There is no white space in the output.
\<close>

definition hex_char :: "nat \<Rightarrow> char" where
  "hex_char n = ''0123456789abcdef'' ! n"

definition quote_char :: "char \<Rightarrow> string" where
  "quote_char c =
     (if c = CHR 0x08 then [CHR 0x5C, CHR ''b'']
      else if c = CHR 0x09 then [CHR 0x5C, CHR ''t'']
      else if c = CHR 0x0A then [CHR 0x5C, CHR ''n'']
      else if c = CHR 0x0C then [CHR 0x5C, CHR ''f'']
      else if c = CHR 0x0D then [CHR 0x5C, CHR ''r'']
      else if c = CHR 0x22 then [CHR 0x5C, CHR 0x22]
      else if c = CHR 0x5C then [CHR 0x5C, CHR 0x5C]
      else if (of_char c :: nat) < 0x20 then
        [CHR 0x5C, CHR ''u'', CHR ''0'', CHR ''0'',
         hex_char (of_char c div 16), hex_char (of_char c mod 16)]
      else [c])"

definition quote :: "string \<Rightarrow> string" where
  "quote s = CHR 0x22 # concat (map quote_char s) @ [CHR 0x22]"

function digits :: "nat \<Rightarrow> string" where
  "digits n = (if n < 10 then [char_of (48 + n)] else digits (n div 10) @ [char_of (48 + n mod 10)])"
  by pat_completeness auto
termination
  by (relation "measure id") auto

declare digits.simps [simp del]

definition show_int :: "int \<Rightarrow> string" where
  "show_int n = (if n < 0 then CHR ''-'' # digits (nat (- n)) else digits (nat n))"

definition type_tag :: "media_type \<Rightarrow> string" where
  "type_tag t = (case t of Movie \<Rightarrow> ''movie'' | Tv \<Rightarrow> ''tv'')"

definition stringify_item :: "WatchlistItem \<Rightarrow> string" where
  "stringify_item i =
     ''{'' @ quote ''id'' @ '':'' @ quote (item_id i) @ '',''
         @ quote ''type'' @ '':'' @ quote (type_tag (item_type i)) @ '',''
         @ quote ''title'' @ '':'' @ quote (title i) @ '',''
         @ quote ''poster_path'' @ '':'' @ quote (poster_path i) @ '',''
         @ quote ''addedAt'' @ '':'' @ show_int (addedAt i) @ ''}''"

fun join_commas :: "string list \<Rightarrow> string" where
  "join_commas [] = []"
| "join_commas [x] = x"
| "join_commas (x # y # ys) = x @ '','' @ join_commas (y # ys)"

definition JSON_stringify :: "WatchlistItem list \<Rightarrow> string" where
  "JSON_stringify items = ''['' @ join_commas (map stringify_item items) @ '']''"

text \<open>The value of a typed item list when the program runs, as a \<open>json\<close>.\<close>

definition json_of_item :: "WatchlistItem \<Rightarrow> json" where
  "json_of_item i =
     JObject [(''id'', JString (item_id i)),
              (''type'', JString (type_tag (item_type i))),
              (''title'', JString (title i)),
              (''poster_path'', JString (poster_path i)),
              (''addedAt'', JNumber (of_int (addedAt i)))]"

definition json_of_items :: "WatchlistItem list \<Rightarrow> json" where
  "json_of_items items = JArray (map json_of_item items)"

text \<open>The tokens of the text that \<open>JSON_stringify\<close> prints.\<close>

definition tokens_of_item :: "WatchlistItem \<Rightarrow> token list" where
  "tokens_of_item i =
     [TLBrace, TStr ''id'', TColon, TStr (item_id i), TComma,
      TStr ''type'', TColon, TStr (type_tag (item_type i)), TComma,
      TStr ''title'', TColon, TStr (title i), TComma,
      TStr ''poster_path'', TColon, TStr (poster_path i), TComma,
      TStr ''addedAt'', TColon, TNum (of_int (addedAt i)), TRBrace]"

definition tokens_of_tail :: "WatchlistItem list \<Rightarrow> token list" where
  "tokens_of_tail items = concat (map (\<lambda>i. TComma # tokens_of_item i) items)"

definition tokens_of_items :: "WatchlistItem list \<Rightarrow> token list" where
  "tokens_of_items items =
     TLBracket #
     (case items of [] \<Rightarrow> [] | i # rest \<Rightarrow> tokens_of_item i @ tokens_of_tail rest)
     @ [TRBracket]"

section \<open>The Item Store (utils/watchlistUtils.ts)\<close>

text \<open>
  \<^verbatim>\<open>localStorage\<close> belongs to the browser.  Its state here is the table of entries together
  with what decides whether an access throws: a storage that is \<open>disabled\<close> throws on every
  access (\<open>SecurityError\<close>), and \<^verbatim>\<open>setItem\<close> throws \<open>QuotaExceededError\<close> for a value longer
  than \<open>quota\<close>.
\<close>

datatype error = SecurityError | QuotaExceededError

record localStorage =
  entries :: "string \<rightharpoonup> string"
  disabled :: bool
  quota :: nat

definition getItem :: "localStorage \<Rightarrow> string \<Rightarrow> error + string option" where
  "getItem ls k = (if disabled ls then Inl SecurityError else Inr (entries ls k))"

definition setItem :: "localStorage \<Rightarrow> string \<Rightarrow> string \<Rightarrow> error + localStorage" where
  "setItem ls k v =
     (if disabled ls then Inl SecurityError
      else if quota ls < length v then Inl QuotaExceededError
      else Inr (ls\<lparr>entries := (entries ls)(k \<mapsto> v)\<rparr>))"

definition removeItem :: "localStorage \<Rightarrow> string \<Rightarrow> error + localStorage" where
  "removeItem ls k =
     (if disabled ls then Inl SecurityError
      else Inr (ls\<lparr>entries := (entries ls)(k := None)\<rparr>))"

definition WATCHLIST_KEY :: string where
  "WATCHLIST_KEY = ''tmovies_watchlist''"

text \<open>
  \<^verbatim>\<open>loadWatchlist\<close>: the \<^verbatim>\<open>try\<close> block reads the entry, returns \<^verbatim>\<open>[]\<close> when the read value is
  falsy (\<^verbatim>\<open>null\<close> or the empty string) and otherwise returns what \<^verbatim>\<open>JSON.parse\<close> yields; the
  \<^verbatim>\<open>catch\<close> block returns \<^verbatim>\<open>[]\<close>.  The cast \<^verbatim>\<open>as WatchlistItem[]\<close> does nothing when the
  program runs, so the result is the parsed value, a \<open>json\<close>.
\<close>

definition loadWatchlist :: "localStorage \<Rightarrow> json" where
  "loadWatchlist ls =
     (case getItem ls WATCHLIST_KEY of
        Inl e \<Rightarrow> JArray []
      | Inr None \<Rightarrow> JArray []
      | Inr (Some stored) \<Rightarrow>
          if stored = [] then JArray []
          else (case JSON_parse stored of None \<Rightarrow> JArray [] | Some v \<Rightarrow> v))"

text \<open>
  \<^verbatim>\<open>saveWatchlist\<close> and \<^verbatim>\<open>clearWatchlistStorage\<close>: the \<^verbatim>\<open>catch\<close> block writes a line to the
  console and returns, which leaves the storage as it was.
\<close>

definition saveWatchlist :: "WatchlistItem list \<Rightarrow> localStorage \<Rightarrow> localStorage" where
  "saveWatchlist items ls =
     (case setItem ls WATCHLIST_KEY (JSON_stringify items) of
        Inl e \<Rightarrow> ls
      | Inr ls' \<Rightarrow> ls')"

definition clearWatchlistStorage :: "localStorage \<Rightarrow> localStorage" where
  "clearWatchlistStorage ls =
     (case removeItem ls WATCHLIST_KEY of
        Inl e \<Rightarrow> ls
      | Inr ls' \<Rightarrow> ls')"

section \<open>The provider (context/watchlistContext.tsx)\<close>

text \<open>
  \<^verbatim>\<open>WatchlistProvider\<close> is a function component.  Each render binds \<^verbatim>\<open>items\<close> to the state
  of that render and builds the object \<^verbatim>\<open>value\<close>, whose functions close over this binding.
  \<^verbatim>\<open>setItems(f)\<close> does not change the binding: it queues \<open>f\<close>, and the next render applies
  the queued functions in order to obtain its own \<^verbatim>\<open>items\<close>.  A provider state is therefore
  the \<open>items\<close> of the current render (what the functions of the current \<^verbatim>\<open>value\<close> read),
  the queue \<open>pending\<close>, the storage, and the clock.  The two effects that run when the
  provider is mounted (hydration from the Store, and a first save) come before the states
  considered here.

  A queued function is a closure over the arguments of the call that queued it.  It has
  not read the clock: \<^verbatim>\<open>Date.now()\<close> stands in the body of the function that
  \<^verbatim>\<open>addToWatchlist\<close> hands to \<^verbatim>\<open>setItems\<close> and is evaluated when the render runs that
  function.  \<open>clock p k\<close> is the value that \<^verbatim>\<open>Date.now()\<close> returns \<open>k\<close> moments from now, and
  \<open>advance n\<close> lets \<open>n\<close> moments pass.
\<close>

datatype call = AddCall IMovie media_type | RemoveCall string

record WatchlistProvider =
  items :: "WatchlistItem list"
  pending :: "call list"
  storage :: localStorage
  clock :: "nat \<Rightarrow> int"

definition advance :: "nat \<Rightarrow> WatchlistProvider \<Rightarrow> WatchlistProvider" where
  "advance n p = p\<lparr>clock := (\<lambda>k. clock p (n + k))\<rparr>"

definition addToWatchlist :: "IMovie \<Rightarrow> media_type \<Rightarrow> WatchlistProvider \<Rightarrow> WatchlistProvider" where
  "addToWatchlist movie type p = p\<lparr>pending := pending p @ [AddCall movie type]\<rparr>"

definition removeFromWatchlist :: "string \<Rightarrow> WatchlistProvider \<Rightarrow> WatchlistProvider" where
  "removeFromWatchlist i p = p\<lparr>pending := pending p @ [RemoveCall i]\<rparr>"


definition getCount :: "WatchlistProvider \<Rightarrow> nat" where
  "getCount p = length (items p)"

definition getFiltered :: "WatchlistProvider \<Rightarrow> filter_by \<Rightarrow> WatchlistItem list" where
  "getFiltered p f =
     (case f of
        FilterAll \<Rightarrow> items p
      | FilterType t \<Rightarrow> filter (\<lambda>item. item_type item = t) (items p))"

text \<open>
  The next render.  The queued updaters run in order on the state, one moment after the
  other, each addition reading the clock at its own moment (two moments may well have the
  same reading).  The effect \<^verbatim>\<open>useEffect(() => saveWatchlist(items), [items])\<close> runs when the
  new \<^verbatim>\<open>items\<close> is not the array of the previous render, that is, when some updater
  returned a new array.
\<close>

fun stamp :: "(nat \<Rightarrow> int) \<Rightarrow> call list \<Rightarrow> update list" where
  "stamp c [] = []"
| "stamp c (AddCall movie type # cs) = Add movie type (c 0) # stamp (\<lambda>k. c (Suc k)) cs"
| "stamp c (RemoveCall i # cs) = Remove i # stamp (\<lambda>k. c (Suc k)) cs"

fun new_array :: "update list \<Rightarrow> WatchlistItem list \<Rightarrow> bool" where
  "new_array [] prev = False"
| "new_array (u # us) prev = (\<not> same_reference u prev \<or> new_array us (run_update u prev))"

definition rerender :: "WatchlistProvider \<Rightarrow> WatchlistProvider" where
  "rerender p =
     (let runs = stamp (clock p) (pending p);
          next = run_updates runs (items p) in
      \<lparr> items = next,
        pending = [],
        storage = (if new_array runs (items p) then saveWatchlist next (storage p)
                   else storage p),
        clock = (\<lambda>k. clock p (length (pending p) + k)) \<rparr>)"

text \<open>
  \<^verbatim>\<open>handleClearAll\<close> of the Watchlist page (pages/Watchlist/index.tsx), the one place that
  offers to clear the list: after the user has confirmed,
  \<^verbatim>\<open>items.forEach((item) => removeFromWatchlist(item.id))\<close>.
\<close>

definition handleClearAll :: "bool \<Rightarrow> WatchlistProvider \<Rightarrow> WatchlistProvider" where
  "handleClearAll confirmed p =
     (if confirmed then foldl (\<lambda>q item. removeFromWatchlist (item_id item) q) p (items p)
      else p)"

section \<open>Sorting (getSorted)\<close>

text \<open>
  \<^verbatim>\<open>Array.prototype.sort\<close> with a comparison function is stable, and for a consistent
  comparison function its result is the one stable arrangement in ascending order; the
  insertion sort below computes it.  The comparison function returns a number, of which
  the sort looks at the sign.
\<close>

fun insort_cmp :: "('a \<Rightarrow> 'a \<Rightarrow> int) \<Rightarrow> 'a \<Rightarrow> 'a list \<Rightarrow> 'a list" where
  "insort_cmp cmp x [] = [x]"
| "insort_cmp cmp x (y # ys) = (if cmp x y \<le> 0 then x # y # ys else y # insort_cmp cmp x ys)"

definition sort_cmp :: "('a \<Rightarrow> 'a \<Rightarrow> int) \<Rightarrow> 'a list \<Rightarrow> 'a list" where
  "sort_cmp cmp xs = foldr (insort_cmp cmp) xs []"

text \<open>
  \<^verbatim>\<open>getSorted\<close> copies its argument and sorts the copy.  \<^verbatim>\<open>String.prototype.localeCompare\<close>
  is the collation of the host and is the parameter \<open>localeCompare\<close>.  The \<^verbatim>\<open>default\<close> branch
  of the \<^verbatim>\<open>switch\<close> cannot be reached with a \<open>sort_by\<close>.
\<close>

definition getSorted ::
  "(string \<Rightarrow> string \<Rightarrow> int) \<Rightarrow> WatchlistItem list \<Rightarrow> sort_by \<Rightarrow> WatchlistItem list" where
  "getSorted localeCompare itemsToSort sortBy =
     (case sortBy of
        DateNew \<Rightarrow> sort_cmp (\<lambda>a b. addedAt b - addedAt a) itemsToSort
      | DateOld \<Rightarrow> sort_cmp (\<lambda>a b. addedAt a - addedAt b) itemsToSort
      | Title \<Rightarrow> sort_cmp (\<lambda>a b. localeCompare (title a) (title b)) itemsToSort)"

text \<open>
  What the sort needs of a comparison function on the elements it meets: the signs of
  \<open>cmp a b\<close> and \<open>cmp b a\<close> are opposite, and \<open>\<le> 0\<close> is transitive.
\<close>

definition consistent_on :: "('a \<Rightarrow> 'a \<Rightarrow> int) \<Rightarrow> 'a set \<Rightarrow> bool" where
  "consistent_on cmp S \<longleftrightarrow>
     (\<forall>a\<in>S. \<forall>b\<in>S. (cmp a b < 0 \<longleftrightarrow> 0 < cmp b a))
     \<and> (\<forall>a\<in>S. \<forall>b\<in>S. \<forall>c\<in>S. cmp a b \<le> 0 \<and> cmp b c \<le> 0 \<longrightarrow> cmp a c \<le> 0)"

text \<open>
  For concrete labels: the comparison that \<^verbatim>\<open>localeCompare\<close> makes, with the default options
  of the host's collator, between two strings of unaccented Latin letters.  The letters
  decide first, whatever their case; between strings with the same letters the case
  decides, at the first place where it differs, a lower-case letter before its capital.
\<close>

definition is_upper :: "char \<Rightarrow> bool" where
  "is_upper c \<longleftrightarrow> (65::nat) \<le> of_char c \<and> of_char c \<le> (90::nat)"

definition base_letter :: "char \<Rightarrow> nat" where
  "base_letter c = (if is_upper c then of_char c + 32 else of_char c)"

definition case_weight :: "char \<Rightarrow> nat" where
  "case_weight c = (if is_upper c then 1 else 0)"

fun compare_keys :: "nat list \<Rightarrow> nat list \<Rightarrow> int" where
  "compare_keys [] [] = 0"
| "compare_keys [] (y # ys) = - 1"
| "compare_keys (x # xs) [] = 1"
| "compare_keys (x # xs) (y # ys) =
     (if x < y then - 1 else if y < x then 1 else compare_keys xs ys)"

definition letters_localeCompare :: "string \<Rightarrow> string \<Rightarrow> int" where
  "letters_localeCompare a b =
     (let primary = compare_keys (map base_letter a) (map base_letter b) in
      if primary \<noteq> 0 then primary
      else compare_keys (map case_weight a) (map case_weight b))"

section \<open>Array references (getFiltered)\<close>

text \<open>
  Whether \<^verbatim>\<open>getFiltered\<close> returns the array of the state or another one is a question about
  references.  A heap holds the arrays; \<open>next_ref\<close> is the first reference not yet in use.
  \<^verbatim>\<open>Array.prototype.filter\<close> allocates its result.  \<open>mutate\<close> is an in-place change made
  through a reference, such as \<^verbatim>\<open>result.pop()\<close> or \<^verbatim>\<open>result[0] = x\<close>.
\<close>

type_synonym ref = nat

record heap =
  arrays :: "ref \<Rightarrow> WatchlistItem list"
  next_ref :: ref

definition alloc :: "WatchlistItem list \<Rightarrow> heap \<Rightarrow> ref \<times> heap" where
  "alloc xs h = (next_ref h, h\<lparr>arrays := (arrays h)(next_ref h := xs), next_ref := Suc (next_ref h)\<rparr>)"

definition mutate :: "ref \<Rightarrow> (WatchlistItem list \<Rightarrow> WatchlistItem list) \<Rightarrow> heap \<Rightarrow> heap" where
  "mutate r f h = h\<lparr>arrays := (arrays h)(r := f (arrays h r))\<rparr>"

text \<open>
  \<^verbatim>\<open>getFiltered\<close> once more, on references: \<open>items_ref\<close> is the reference that the binding
  \<^verbatim>\<open>items\<close> of the render holds.
\<close>

definition getFiltered_ref :: "ref \<Rightarrow> filter_by \<Rightarrow> heap \<Rightarrow> ref \<times> heap" where
  "getFiltered_ref items_ref f h =
     (case f of
        FilterAll \<Rightarrow> (items_ref, h)
      | FilterType t \<Rightarrow> alloc (filter (\<lambda>item. item_type item = t) (arrays h items_ref)) h)"

section \<open>Example values\<close>

text \<open>The descriptor of the repository's tests, a descriptor without titles, a storage in
  working order, and a provider with the empty Collection and nothing pending.\<close>

definition fight_club :: IMovie where
  "fight_club =
     \<lparr> movie_id = ''550'',
       movie_poster_path = ''/pB8BM7pdSp6B6Ie8DQlJp1wAwh6.jpg'',
       original_title = ''Fight Club'',
       name = ''Fight Club'',
       overview = ''An insomniac office worker...'',
       backdrop_path = ''/6ZfuBcaGTBYd1seiMH0zgK5J2fS.jpg'' \<rparr>"

definition untitled :: IMovie where
  "untitled =
     \<lparr> movie_id = ''551'',
       movie_poster_path = ''/p.jpg'',
       original_title = '''',
       name = '''',
       overview = '''',
       backdrop_path = '''' \<rparr>"

definition open_storage :: localStorage where
  "open_storage = \<lparr> entries = Map.empty, disabled = False, quota = 5000000 \<rparr>"

definition fresh_provider :: "(nat \<Rightarrow> int) \<Rightarrow> localStorage \<Rightarrow> WatchlistProvider" where
  "fresh_provider c ls = \<lparr> items = [], pending = [], storage = ls, clock = c \<rparr>"

text \<open>A clock that reads 1000 now and a second more with every moment.\<close>

definition ticking :: "nat \<Rightarrow> int" where
  "ticking k = 1000 + 1000 * int k"

text \<open>A provider that shows one Item, saved in the storage.\<close>

definition watching :: WatchlistProvider where
  "watching =
     \<lparr> items = [newItem fight_club Movie 1000],
       pending = [],
       storage = saveWatchlist [newItem fight_club Movie 1000] open_storage,
       clock = ticking \<rparr>"

text \<open>An update whose candidate, if it has one, carries a title or a name.\<close>

fun titled :: "update \<Rightarrow> bool" where
  "titled (Add movie type now) \<longleftrightarrow> original_title movie \<noteq> [] \<or> name movie \<noteq> []"
| "titled (Remove i) \<longleftrightarrow> True"

text \<open>A heap in which reference \<open>0\<close> holds a movie and a series.\<close>

definition example_heap :: heap where
  "example_heap =
     \<lparr> arrays = (\<lambda>r. []) (0 := [newItem fight_club Movie 1000, newItem untitled Tv 2000]),
       next_ref = 1 \<rparr>"

text \<open>An Item with a given label.\<close>

definition labelled :: "string \<Rightarrow> WatchlistItem" where
  "labelled l = \<lparr> item_id = l, item_type = Movie, title = l, poster_path = [], addedAt = 0 \<rparr>"

section \<open>Properties of the updaters\<close>

lemma run_updates_Nil [simp]: "run_updates [] c = c"
  by (simp add: run_updates_def)

lemma run_updates_Cons [simp]: "run_updates (u # us) c = run_updates us (run_update u c)"
  by (simp add: run_updates_def)

lemma run_updates_append [simp]:
  "run_updates (us @ vs) c = run_updates vs (run_updates us c)"
  by (simp add: run_updates_def)

lemma list_ex_item_id: "list_ex (\<lambda>item. item_id item = i) c \<longleftrightarrow> i \<in> set (map item_id c)"
  by (induction c) auto

lemma add_updater_present:
  "i \<in> set (map item_id c) \<Longrightarrow> movie_id movie = i \<Longrightarrow>
     addToWatchlist_updater movie type now c = c"
  by (simp add: addToWatchlist_updater_def list_ex_item_id)

lemma add_updater_absent:
  "movie_id movie \<notin> set (map item_id c) \<Longrightarrow>
     addToWatchlist_updater movie type now c = newItem movie type now # c"
  by (simp add: addToWatchlist_updater_def list_ex_item_id)

lemma distinct_add_updater:
  "distinct (map item_id c) \<Longrightarrow> distinct (map item_id (addToWatchlist_updater movie type now c))"
  by (cases "movie_id movie \<in> set (map item_id c)")
     (simp_all add: add_updater_present add_updater_absent newItem_def)

lemma distinct_remove_updater:
  "distinct (map item_id c) \<Longrightarrow> distinct (map item_id (removeFromWatchlist_updater i c))"
  by (simp add: removeFromWatchlist_updater_def distinct_map_filter)

lemma distinct_run_update:
  "distinct (map item_id c) \<Longrightarrow> distinct (map item_id (run_update u c))"
  by (cases u) (simp_all add: distinct_add_updater distinct_remove_updater)

lemma distinct_run_updates:
  "distinct (map item_id c) \<Longrightarrow> distinct (map item_id (run_updates us c))"
  by (induction us arbitrary: c) (simp_all add: distinct_run_update)

section \<open>Properties of the JSON functions\<close>

declare tokenize.simps(2) [simp del]

lemma hex_val_hex_char: "k < 16 \<Longrightarrow> hex_val (hex_char k) = Some k"
proof -
  assume "k < 16"
  then have "k \<in> set [0..<16]" by simp
  then show ?thesis
    unfolding hex_char_def hex_val_def by (simp add: upt_rec) (elim disjE; simp)
qed

lemma lex_string_control:
  assumes "(of_char c :: nat) < 0x20"
  shows "lex_string (CHR 0x5C # CHR ''u'' # CHR ''0'' # CHR ''0'' #
            hex_char (of_char c div 16) # hex_char (of_char c mod 16) # rest)
         = prepend [c] (lex_string rest)"
proof -
  have d: "(of_char c :: nat) div 16 < 16" and m: "(of_char c :: nat) mod 16 < 16"
    using assms by simp_all
  have h0: "hex_val (CHR ''0'') = Some 0"
    by (simp add: hex_val_def)
  have "hex4 (CHR ''0'') (CHR ''0'') (hex_char (of_char c div 16)) (hex_char (of_char c mod 16))
          = Some (((0 * 16 + 0) * 16 + of_char c div 16) * 16 + of_char c mod 16)"
    unfolding hex4_def h0 hex_val_hex_char[OF d] hex_val_hex_char[OF m] by simp
  then have "hex4 (CHR ''0'') (CHR ''0'') (hex_char (of_char c div 16)) (hex_char (of_char c mod 16))
          = Some (of_char c)"
    by simp
  moreover have "utf8 (of_char c) = [c]"
    using assms by (simp add: utf8_def)
  ultimately show ?thesis by simp
qed

lemma lex_string_quote_char:
  "lex_string (quote_char c @ rest) = prepend [c] (lex_string rest)"
proof -
  consider (short) "c \<in> {CHR 0x08, CHR 0x09, CHR 0x0A, CHR 0x0C, CHR 0x0D, CHR 0x22, CHR 0x5C}"
    | (control) "c \<notin> {CHR 0x08, CHR 0x09, CHR 0x0A, CHR 0x0C, CHR 0x0D, CHR 0x22, CHR 0x5C}"
        "(of_char c :: nat) < 0x20"
    | (plain) "c \<notin> {CHR 0x08, CHR 0x09, CHR 0x0A, CHR 0x0C, CHR 0x0D, CHR 0x22, CHR 0x5C}"
        "\<not> (of_char c :: nat) < 0x20"
    by blast
  then show ?thesis
  proof cases
    case short
    then show ?thesis
      by (elim insertE emptyE) (simp_all add: quote_char_def unescape_def)
  next
    case control
    then have "quote_char c = [CHR 0x5C, CHR ''u'', CHR ''0'', CHR ''0'',
         hex_char (of_char c div 16), hex_char (of_char c mod 16)]"
      by (simp add: quote_char_def)
    with lex_string_control[OF control(2), of rest] show ?thesis
      by simp
  next
    case plain
    then have "quote_char c = [c]"
      by (simp add: quote_char_def)
    with plain show ?thesis
      by simp
  qed
qed

lemma lex_string_quoted:
  "lex_string (concat (map quote_char s) @ CHR 0x22 # rest) = Some (s, rest)"
  by (induction s) (simp_all add: lex_string_quote_char prepend_def)

lemma tokenize_quote: "tokenize (quote s @ rest) = cons_token (TStr s) (tokenize rest)"
  by (simp add: quote_def tokenize.simps(2) is_ws_def lex_string_quoted)

lemma of_char_digit: "(k::nat) < 10 \<Longrightarrow> (of_char (char_of (48 + k)) :: nat) = 48 + k"
  by simp

lemma is_digit_char_of: "(k::nat) < 10 \<Longrightarrow> is_digit (char_of (48 + k))"
  by (simp add: is_digit_def)

lemma digit_val_char_of: "(k::nat) < 10 \<Longrightarrow> digit_val (char_of (48 + k)) = k"
  by (simp add: digit_val_def)

lemma digits_all_digit: "c \<in> set (digits n) \<Longrightarrow> is_digit c"
proof (induction n rule: digits.induct)
  case (1 n)
  then show ?case
    by (subst (asm) (2) digits.simps) (auto simp: is_digit_char_of split: if_splits)
qed

lemma digits_not_Nil: "digits n \<noteq> []"
  by (subst digits.simps) simp

lemma nat_of_digits_snoc: "nat_of_digits (ds @ [c]) = 10 * nat_of_digits ds + digit_val c"
  by (simp add: nat_of_digits_def)

lemma nat_of_digits_digits: "nat_of_digits (digits n) = n"
proof (induction n rule: digits.induct)
  case (1 n)
  show ?case
  proof (cases "n < 10")
    case True
    then show ?thesis
      by (subst digits.simps) (simp add: nat_of_digits_def digit_val_char_of)
  next
    case False
    with 1 show ?thesis
      by (subst digits.simps) (simp add: nat_of_digits_snoc digit_val_char_of)
  qed
qed

lemma hd_digits: "0 < n \<Longrightarrow> hd (digits n) \<noteq> CHR ''0''"
proof (induction n rule: digits.induct)
  case (1 n)
  show ?case
  proof (cases "n < 10")
    case True
    with "1.prems" have "(of_char (hd (digits n)) :: nat) = 48 + n"
      by (subst digits.simps) simp
    with "1.prems" show ?thesis by auto
  next
    case False
    then have "0 < n div 10" by simp
    with False 1 show ?thesis
      by (subst digits.simps) (simp add: digits_not_Nil)
  qed
qed

lemma length_digits_one: "n < 10 \<Longrightarrow> length (digits n) = 1"
  by (subst digits.simps) simp

lemma digits_no_leading_zero: "1 < length (digits n) \<Longrightarrow> hd (digits n) \<noteq> CHR ''0''"
  using hd_digits[of n] length_digits_one[of n] by (cases "n = 0") auto

lemma takeWhile_digits:
  "\<not> is_digit c \<Longrightarrow> takeWhile is_digit (digits n @ c # rest) = digits n"
  by (simp add: takeWhile_append2 digits_all_digit)

lemma dropWhile_digits:
  "\<not> is_digit c \<Longrightarrow> dropWhile is_digit (digits n @ c # rest) = c # rest"
  by (simp add: dropWhile_append2 digits_all_digit)

lemma lex_number_digits:
  assumes "\<not> is_digit c" "c \<noteq> CHR ''.''" "c \<noteq> CHR ''e''" "c \<noteq> CHR ''E''"
  shows "lex_number (digits n @ c # rest) = Some (of_nat n, c # rest)"
proof -
  obtain d ds where d: "digits n = d # ds"
    using digits_not_Nil[of n] by (cases "digits n") auto
  have "is_digit d"
    using digits_all_digit[of d n] d by simp
  then have "d \<noteq> CHR ''-''"
    by (auto simp: is_digit_def)
  have frac: "lex_fraction (c # rest) = Some (0, c # rest)"
    using assms by (simp add: lex_fraction_def)
  have expo: "lex_exponent (c # rest) = Some (1, c # rest)"
    using assms by (simp add: lex_exponent_def)
  have neg: "(case digits n @ c # rest of [] \<Rightarrow> False | x # _ \<Rightarrow> x = CHR ''-'') = False"
    using \<open>d \<noteq> CHR ''-''\<close> by (simp add: d)
  show ?thesis
    unfolding lex_number_def neg Let_def
    using digits_no_leading_zero[of n]
    by (simp add: takeWhile_digits[OF assms(1)] dropWhile_digits[OF assms(1)] frac expo
        digits_not_Nil nat_of_digits_digits)
qed

lemma lex_number_show_int:
  assumes "\<not> is_digit c" "c \<noteq> CHR ''.''" "c \<noteq> CHR ''e''" "c \<noteq> CHR ''E''"
  shows "lex_number (show_int n @ c # rest) = Some (of_int n, c # rest)"
proof (cases "n < 0")
  case False
  then show ?thesis
    using lex_number_digits[OF assms, of "nat n" rest] by (simp add: show_int_def)
next
  case True
  have frac: "lex_fraction (c # rest) = Some (0, c # rest)"
    using assms by (simp add: lex_fraction_def)
  have expo: "lex_exponent (c # rest) = Some (1, c # rest)"
    using assms by (simp add: lex_exponent_def)
  have "lex_number (CHR ''-'' # digits (nat (- n)) @ c # rest) = Some (- of_nat (nat (- n)), c # rest)"
    unfolding lex_number_def Let_def
    using digits_no_leading_zero[of "nat (- n)"]
    by (simp add: takeWhile_digits[OF assms(1)] dropWhile_digits[OF assms(1)] frac expo
        digits_not_Nil nat_of_digits_digits)
  with True show ?thesis
    by (simp add: show_int_def)
qed

lemma tokenize_punctuation:
  "tokenize (CHR ''{'' # cs) = cons_token TLBrace (tokenize cs)"
  "tokenize (CHR ''}'' # cs) = cons_token TRBrace (tokenize cs)"
  "tokenize (CHR ''['' # cs) = cons_token TLBracket (tokenize cs)"
  "tokenize (CHR '']'' # cs) = cons_token TRBracket (tokenize cs)"
  "tokenize (CHR '':'' # cs) = cons_token TColon (tokenize cs)"
  "tokenize (CHR '','' # cs) = cons_token TComma (tokenize cs)"
  by (simp_all add: tokenize.simps(2) is_ws_def)

lemma tokenize_number_start:
  assumes "c = CHR ''-'' \<or> is_digit c"
  shows "tokenize (c # cs) =
     (case lex_number (c # cs) of None \<Rightarrow> None
      | Some (n, rest) \<Rightarrow> cons_token (TNum n) (tokenize rest))"
proof -
  from assms have "(of_char c :: nat) = 45 \<or> (48 \<le> (of_char c :: nat) \<and> (of_char c :: nat) \<le> 57)"
    by (auto simp: is_digit_def)
  then have "\<not> is_ws c" "c \<noteq> CHR ''{''" "c \<noteq> CHR ''}''" "c \<noteq> CHR ''[''" "c \<noteq> CHR '']''"
    "c \<noteq> CHR '':''" "c \<noteq> CHR '',''" "c \<noteq> CHR 0x22"
    by (auto simp: is_ws_def)
  with assms show ?thesis
    by (subst tokenize.simps(2)) simp
qed

lemma show_int_start: "\<exists>c cs. show_int n = c # cs \<and> (c = CHR ''-'' \<or> is_digit c)"
proof (cases "n < 0")
  case True
  then show ?thesis by (simp add: show_int_def)
next
  case False
  obtain d ds where d: "digits (nat n) = d # ds"
    using digits_not_Nil[of "nat n"] by (cases "digits (nat n)") auto
  then have "is_digit d"
    using digits_all_digit[of d "nat n"] by simp
  with False d show ?thesis by (simp add: show_int_def)
qed

lemma tokenize_show_int:
  "tokenize (show_int n @ CHR ''}'' # rest) = cons_token (TNum (of_int n)) (tokenize (CHR ''}'' # rest))"
proof -
  obtain c cs where c: "show_int n = c # cs" "c = CHR ''-'' \<or> is_digit c"
    using show_int_start[of n] by blast
  have "lex_number (show_int n @ CHR ''}'' # rest) = Some (of_int n, CHR ''}'' # rest)"
    by (rule lex_number_show_int) (simp_all add: is_digit_def)
  with tokenize_number_start[OF c(2), of "cs @ CHR ''}'' # rest"] show ?thesis
    by (simp add: c(1))
qed

lemma tokenize_stringify_item:
  "tokenize (stringify_item i @ rest) = map_option ((@) (tokens_of_item i)) (tokenize rest)"
  by (cases "tokenize rest")
     (simp_all add: stringify_item_def tokens_of_item_def tokenize_punctuation tokenize_quote tokenize_show_int
        cons_token_def)

lemma join_commas_Cons:
  "join_commas (x # xs) = x @ concat (map (\<lambda>y. '','' @ y) xs)"
  by (induction xs arbitrary: x) simp_all

lemma tokenize_tail:
  "tokenize (concat (map (\<lambda>y. '','' @ y) (map stringify_item xs)) @ rest)
     = map_option ((@) (tokens_of_tail xs)) (tokenize rest)"
proof (induction xs)
  case Nil
  show ?case by (simp add: tokens_of_tail_def option.map_ident)
next
  case (Cons i xs)
  then show ?case
    by (cases "tokenize rest")
       (simp_all add: tokens_of_tail_def tokenize_punctuation tokenize_stringify_item cons_token_def)
qed

lemma tokenize_JSON_stringify: "tokenize (JSON_stringify xs) = Some (tokens_of_items xs)"
proof (cases xs)
  case Nil
  then show ?thesis
    by (simp add: JSON_stringify_def tokens_of_items_def tokenize_punctuation cons_token_def)
next
  case (Cons i rest)
  have "tokenize (stringify_item i @ concat (map (\<lambda>y. '','' @ y) (map stringify_item rest)) @ '']'')
          = Some (tokens_of_item i @ tokens_of_tail rest @ [TRBracket])"
    using tokenize_tail[of rest "'']''"]
    by (simp add: tokenize_stringify_item tokenize_punctuation cons_token_def)
  with Cons show ?thesis
    by (simp add: JSON_stringify_def tokens_of_items_def tokenize_punctuation cons_token_def
        join_commas_Cons)
qed

lemma run_append:
  "run s (ts @ us) = (case run s ts of None \<Rightarrow> None | Some s' \<Rightarrow> run s' us)"
  by (induction ts arbitrary: s) (simp_all split: option.splits)

lemma run_item:
  "m = MValue \<or> m = MFirstElem \<Longrightarrow>
   run (m, FArr es # st) (tokens_of_item i) = Some (MAfter, FArr (json_of_item i # es) # st)"
  by (auto simp: tokens_of_item_def json_of_item_def)

lemma run_tail:
  "run (MAfter, FArr es # st) (tokens_of_tail xs)
     = Some (MAfter, FArr (rev (map json_of_item xs) @ es) # st)"
proof (induction xs arbitrary: es)
  case Nil
  show ?case by (simp add: tokens_of_tail_def)
next
  case (Cons i xs)
  have step1: "run (MAfter, FArr es # st) (TComma # tokens_of_item i)
          = Some (MAfter, FArr (json_of_item i # es) # st)"
    using run_item[of MValue es st i] by simp
  have split: "tokens_of_tail (i # xs) = (TComma # tokens_of_item i) @ tokens_of_tail xs"
    by (simp add: tokens_of_tail_def)
  show ?case
    unfolding split run_append step1 using Cons[of "json_of_item i # es"] by simp
qed

lemma parse_tokens_of_items: "parse_tokens (tokens_of_items xs) = Some (json_of_items xs)"
proof (cases xs)
  case Nil
  then show ?thesis
    by (simp add: parse_tokens_def tokens_of_items_def json_of_items_def)
next
  case (Cons i rest)
  have "run (MFirstElem, [FArr []]) (tokens_of_item i @ tokens_of_tail rest @ [TRBracket])
          = Some (MDone (JArray (map json_of_item (i # rest))), [])"
    by (simp add: run_append run_item run_tail rev_map del: run.simps(2)) (simp add: rev_map[symmetric])
  with Cons show ?thesis
    by (simp add: parse_tokens_def tokens_of_items_def json_of_items_def)
qed

lemma JSON_roundtrip: "JSON_parse (JSON_stringify xs) = Some (json_of_items xs)"
  by (simp add: JSON_parse_def tokenize_JSON_stringify parse_tokens_of_items)

section \<open>Properties of the provider\<close>

lemma stamp_append:
  "stamp c (xs @ ys) = stamp c xs @ stamp (\<lambda>k. c (length xs + k)) ys"
  by (induction c xs rule: stamp.induct) simp_all

lemma items_rerender: "items (rerender p) = run_updates (stamp (clock p) (pending p)) (items p)"
  by (simp add: rerender_def Let_def)

lemma pending_rerender: "pending (rerender p) = []"
  by (simp add: rerender_def Let_def)

lemma clock_rerender: "clock (rerender p) = (\<lambda>k. clock p (length (pending p) + k))"
  by (simp add: rerender_def Let_def)

lemma items_addToWatchlist: "items (addToWatchlist movie type p) = items p"
  by (simp add: addToWatchlist_def)

lemma items_removeFromWatchlist: "items (removeFromWatchlist i p) = items p"
  by (simp add: removeFromWatchlist_def)

lemma pending_addToWatchlist:
  "pending (addToWatchlist movie type p) = pending p @ [AddCall movie type]"
  by (simp add: addToWatchlist_def)

lemma pending_removeFromWatchlist:
  "pending (removeFromWatchlist i p) = pending p @ [RemoveCall i]"
  by (simp add: removeFromWatchlist_def)

lemma clock_addToWatchlist: "clock (addToWatchlist movie type p) = clock p"
  by (simp add: addToWatchlist_def)

lemma clock_removeFromWatchlist: "clock (removeFromWatchlist i p) = clock p"
  by (simp add: removeFromWatchlist_def)

lemma advance_simps:
  "items (advance n p) = items p"
  "pending (advance n p) = pending p"
  "storage (advance n p) = storage p"
  "clock (advance n p) = (\<lambda>k. clock p (n + k))"
  by (simp_all add: advance_def)

lemma items_rerender_add:
  "items (rerender (addToWatchlist movie type p))
     = addToWatchlist_updater movie type (clock p (length (pending p))) (items (rerender p))"
  by (simp add: items_rerender items_addToWatchlist pending_addToWatchlist clock_addToWatchlist
      stamp_append)

lemma items_rerender_remove:
  "items (rerender (removeFromWatchlist i p)) = removeFromWatchlist_updater i (items (rerender p))"
  by (simp add: items_rerender items_removeFromWatchlist pending_removeFromWatchlist
      clock_removeFromWatchlist stamp_append)

lemmas provider_simps =
  items_rerender_add items_rerender_remove pending_rerender clock_rerender
  items_addToWatchlist items_removeFromWatchlist pending_addToWatchlist
  pending_removeFromWatchlist clock_addToWatchlist clock_removeFromWatchlist advance_simps

lemma rerender_nothing_pending: "pending p = [] \<Longrightarrow> items (rerender p) = items p"
  by (simp add: items_rerender)

lemma items_rerender_advance_fresh [simp]:
  "items (rerender (advance n (fresh_provider c ls))) = []"
  "items (rerender (fresh_provider c ls)) = []"
  by (simp_all add: items_rerender advance_simps fresh_provider_def)

section \<open>The Collection under additions and removals\<close>

text \<open>
  C4 as stated fails in its last part: the \<open>addedAt\<close> of the Item is not the time of the
  first call.  The first call is made when the clock reads 1000 and the second when it reads
  2000; the render that runs their updaters comes when it reads 3000, and that is the
  \<open>addedAt\<close> of the one Item.
\<close>

theorem C4_time_of_call_counterexample:
  "clock (fresh_provider ticking open_storage) 0 = 1000
   \<and> clock (advance 1 (addToWatchlist fight_club Movie (fresh_provider ticking open_storage))) 0
       = 2000
   \<and> map addedAt (items (rerender (advance 1 (addToWatchlist fight_club Movie
        (advance 1 (addToWatchlist fight_club Movie (fresh_provider ticking open_storage)))))))
       = [3000]"
  by (simp add: items_rerender addToWatchlist_def advance_def fresh_provider_def ticking_def
      addToWatchlist_updater_def newItem_def)

text \<open>
  C4, amended.  Adding a candidate whose id is already in the Collection returns the
  Collection as it is: the same Items in the same order with the same fields, so the
  \<open>addedAt\<close> of the Item with that id stays.  Adding the same candidate twice to the empty
  Collection leaves one Item, whose \<open>addedAt\<close> is the reading of the clock at the moment the
  updater of the first call ran: the moment of the render when both calls wait for the same
  render (\<open>a\<close> moments pass between the calls and \<open>b\<close> more before the render), and the
  moment of the first render when the provider renders between the calls, whatever time
  passes afterwards.
\<close>

theorem C4_add_existing_is_noop:
  "(list_ex (\<lambda>item. item_id item = movie_id movie) c \<longrightarrow>
      addToWatchlist_updater movie type now c = c)
   \<and> items (rerender (advance b (addToWatchlist movie type
        (advance a (addToWatchlist movie type (fresh_provider clk ls))))))
       = [newItem movie type (clk (a + b))]
   \<and> getCount (rerender (advance d (addToWatchlist movie type
        (advance b (rerender (advance a (addToWatchlist movie type (fresh_provider clk ls)))))))) = 1
   \<and> map addedAt (items (rerender (advance d (addToWatchlist movie type
        (advance b (rerender (advance a (addToWatchlist movie type (fresh_provider clk ls))))))))) = [clk a]"
proof -
  have noop: "list_ex (\<lambda>item. item_id item = movie_id movie) c \<longrightarrow>
      addToWatchlist_updater movie type now c = c"
    by (simp add: addToWatchlist_updater_def)
  have batch: "items (rerender (advance b (addToWatchlist movie type
        (advance a (addToWatchlist movie type (fresh_provider clk ls))))))
       = [newItem movie type (clk (a + b))]"
    by (simp add: items_rerender addToWatchlist_def advance_def fresh_provider_def
        addToWatchlist_updater_def newItem_def add.commute)
  have first: "items (rerender (advance a (addToWatchlist movie type (fresh_provider clk ls))))
       = [newItem movie type (clk a)]"
    by (simp add: items_rerender addToWatchlist_def advance_def fresh_provider_def
        addToWatchlist_updater_def)
  have second: "items (rerender (advance d (addToWatchlist movie type (advance b q)))) = items q"
    if "items q = [newItem movie type t]" "pending q = []" for q t
    using that
    by (simp add: items_rerender addToWatchlist_def advance_def addToWatchlist_updater_def
        newItem_def)
  have "items (rerender (advance d (addToWatchlist movie type
        (advance b (rerender (advance a (addToWatchlist movie type (fresh_provider clk ls))))))))
       = [newItem movie type (clk a)]"
    using second[OF first pending_rerender] first by simp
  with noop batch show ?thesis
    by (simp add: getCount_def newItem_def)
qed

theorem C4_add_existing_witness:
  "list_ex (\<lambda>item. item_id item = movie_id fight_club) [newItem fight_club Movie 1000]
   \<and> addToWatchlist_updater fight_club Movie 2000 [newItem fight_club Movie 1000]
       = [newItem fight_club Movie 1000]
   \<and> map addedAt (addToWatchlist_updater fight_club Movie 2000 [newItem fight_club Movie 1000])
       = [1000]"
  using C4_add_existing_is_noop[of fight_club "[newItem fight_club Movie 1000]" Movie 2000]
  by (simp add: newItem_def)

text \<open>
  C5.  No Collection reached from the empty one by additions and removals holds two Items
  with the same id, and an addition and a removal each keep the ids distinct.
\<close>

theorem C5_ids_unique:
  "distinct (map item_id (run_updates us []))
   \<and> (distinct (map item_id c) \<longrightarrow>
        distinct (map item_id (addToWatchlist_updater movie type now c)))
   \<and> (distinct (map item_id c) \<longrightarrow> distinct (map item_id (removeFromWatchlist_updater i c)))"
  using distinct_run_updates[of "[]" us]
  by (simp add: distinct_add_updater distinct_remove_updater)

theorem C5_ids_unique_witness:
  "distinct (map item_id [newItem fight_club Movie 1000])
   \<and> distinct (map item_id (addToWatchlist_updater untitled Tv 2000 [newItem fight_club Movie 1000]))
   \<and> distinct (map item_id (removeFromWatchlist_updater ''550'' [newItem fight_club Movie 1000]))"
  using C5_ids_unique[of "[]" "[newItem fight_club Movie 1000]" untitled Tv 2000 "''550''"]
  by (simp add: newItem_def fight_club_def)

text \<open>
  C6.  Adding a candidate whose id is not in the Collection puts the new Item in front of
  the Collection, which follows it unchanged.
\<close>

theorem C6_add_prepends:
  "\<not> list_ex (\<lambda>item. item_id item = movie_id movie) c \<Longrightarrow>
     addToWatchlist_updater movie type now c = newItem movie type now # c"
  by (simp add: addToWatchlist_updater_def)

theorem C6_add_prepends_witness:
  "\<not> list_ex (\<lambda>item. item_id item = movie_id untitled) [newItem fight_club Movie 1000]
   \<and> addToWatchlist_updater untitled Tv 2000 [newItem fight_club Movie 1000]
       = [newItem untitled Tv 2000, newItem fight_club Movie 1000]"
  using C6_add_prepends[of untitled "[newItem fight_club Movie 1000]" Tv 2000]
  by (simp add: newItem_def fight_club_def untitled_def)

section \<open>Labels\<close>

lemma titles_run_update:
  "titled u \<Longrightarrow> \<forall>item\<in>set c. title item \<noteq> [] \<Longrightarrow> \<forall>item\<in>set (run_update u c). title item \<noteq> []"
  by (cases u)
     (auto simp: addToWatchlist_updater_def removeFromWatchlist_updater_def newItem_def js_or_def)

lemma titles_run_updates:
  "\<forall>u\<in>set us. titled u \<Longrightarrow> \<forall>item\<in>set c. title item \<noteq> [] \<Longrightarrow>
     \<forall>item\<in>set (run_updates us c). title item \<noteq> []"
proof (induction us arbitrary: c)
  case Nil
  then show ?case by simp
next
  case (Cons u us)
  from Cons.prems have "\<forall>item\<in>set (run_update u c). title item \<noteq> []"
    by (intro titles_run_update) simp_all
  with Cons show ?case by simp
qed

text \<open>
  C9 as stated fails: a descriptor whose title and name are both the empty string is
  stored with the empty label.
\<close>

theorem C9_empty_label_counterexample:
  "map title (items (rerender (addToWatchlist untitled Movie (fresh_provider ticking open_storage))))
     = ['''']"
  by (simp add: provider_simps addToWatchlist_updater_def newItem_def js_or_def untitled_def)

text \<open>
  C9, amended.  The label of the Item built from a descriptor is the descriptor's
  \<open>original_title\<close>, or its \<open>name\<close> when the \<open>original_title\<close> is the empty string.  The label
  is non-empty exactly when one of the two fields is; so when every added descriptor has a
  non-empty title or name, every label in every Collection reached from the empty one is
  non-empty.
\<close>

theorem C9_label_resolution:
  "title (newItem movie type now)
     = (if original_title movie \<noteq> [] then original_title movie else name movie)
   \<and> (\<not> list_ex (\<lambda>item. item_id item = movie_id movie) c \<longrightarrow>
        title (hd (addToWatchlist_updater movie type now c))
          = (if original_title movie \<noteq> [] then original_title movie else name movie))
   \<and> (title (newItem movie type now) \<noteq> [] \<longleftrightarrow> original_title movie \<noteq> [] \<or> name movie \<noteq> [])
   \<and> ((\<forall>u\<in>set us. titled u) \<longrightarrow> (\<forall>item\<in>set (run_updates us []). title item \<noteq> []))"
  using titles_run_updates[of us "[]"]
  by (auto simp: newItem_def js_or_def addToWatchlist_updater_def)

theorem C9_label_resolution_witness:
  "\<not> list_ex (\<lambda>item. item_id item = movie_id fight_club) []
   \<and> title (hd (addToWatchlist_updater fight_club Movie 1000 [])) = ''Fight Club''
   \<and> list_all titled [Add fight_club Movie 1000, Remove ''7'']
   \<and> list_all (\<lambda>item. title item \<noteq> [])
        (run_updates [Add fight_club Movie 1000, Remove ''7''] [])"
  using C9_label_resolution[of fight_club Movie 1000 "[]" "[Add fight_club Movie 1000, Remove ''7'']"]
  by (simp add: fight_club_def list_all_iff)

section \<open>Reads after a mutation\<close>




section \<open>Loading and saving\<close>

lemma disabled_saveWatchlist [simp]: "disabled (saveWatchlist c ls) = disabled ls"
  by (simp add: saveWatchlist_def setItem_def)

lemma quota_saveWatchlist [simp]: "quota (saveWatchlist c ls) = quota ls"
  by (simp add: saveWatchlist_def setItem_def)

lemma entries_saveWatchlist:
  "entries (saveWatchlist c ls) =
     (if disabled ls \<or> quota ls < length (JSON_stringify c) then entries ls
      else (entries ls)(WATCHLIST_KEY \<mapsto> JSON_stringify c))"
  by (simp add: saveWatchlist_def setItem_def)

lemma entries_clearWatchlistStorage:
  "entries (clearWatchlistStorage ls) =
     (if disabled ls then entries ls else (entries ls)(WATCHLIST_KEY := None))"
  by (simp add: clearWatchlistStorage_def removeItem_def)

lemma JSON_stringify_not_Nil: "JSON_stringify c \<noteq> []"
  by (simp add: JSON_stringify_def)

lemma JSON_stringify_Nil: "JSON_stringify [] = ''[]''"
  by (simp add: JSON_stringify_def)

lemma loadWatchlist_saveWatchlist:
  assumes "\<not> disabled ls" "length (JSON_stringify c) \<le> quota ls"
  shows "loadWatchlist (saveWatchlist c ls) = json_of_items c"
  using assms
  by (simp add: loadWatchlist_def getItem_def entries_saveWatchlist JSON_stringify_not_Nil
      JSON_roundtrip)

lemma type_tag_inj: "type_tag s = type_tag t \<Longrightarrow> s = t"
  by (cases s; cases t) (simp_all add: type_tag_def)

lemma json_of_item_inj: "json_of_item a = json_of_item b \<Longrightarrow> a = b"
  by (cases a; cases b) (auto simp: json_of_item_def dest: type_tag_inj)

lemma json_of_items_inj: "inj json_of_items"
proof (rule injI)
  fix a b
  assume "json_of_items a = json_of_items b"
  then have "map json_of_item a = map json_of_item b"
    by (simp add: json_of_items_def)
  then show "a = b"
    by (induction a arbitrary: b) (auto dest: json_of_item_inj)
qed

text \<open>
  C8.  When the storage is in working order (it can be accessed and accepts the serialised
  text), loading after saving a Collection \<open>c\<close> returns the value of \<open>c\<close>: the same Items with
  the same ids and fields in the same order.  Different Collections have different values.
\<close>

theorem C8_load_after_save:
  "\<not> disabled ls \<Longrightarrow> length (JSON_stringify c) \<le> quota ls \<Longrightarrow>
     loadWatchlist (saveWatchlist c ls) = json_of_items c \<and> inj json_of_items"
  by (simp add: loadWatchlist_saveWatchlist json_of_items_inj)

theorem C8_load_after_save_witness:
  "\<not> disabled open_storage
   \<and> length (JSON_stringify [newItem fight_club Movie 1000]) \<le> quota open_storage
   \<and> loadWatchlist (saveWatchlist [newItem fight_club Movie 1000] open_storage)
       = json_of_items [newItem fight_club Movie 1000]"
proof -
  have d: "\<not> disabled open_storage"
    by (simp add: open_storage_def)
  have "length (JSON_stringify [newItem fight_club Movie 1000]) = 114"
    by code_simp
  then have q: "length (JSON_stringify [newItem fight_club Movie 1000]) \<le> quota open_storage"
    by (simp add: open_storage_def)
  from C8_load_after_save[OF d q] d q show ?thesis
    by simp
qed

lemma loadWatchlist_empty:
  "disabled ls \<or> entries ls WATCHLIST_KEY = None \<or> entries ls WATCHLIST_KEY = Some []
     \<or> (\<exists>s. entries ls WATCHLIST_KEY = Some s \<and> JSON_parse s = None)
   \<Longrightarrow> loadWatchlist ls = JArray []"
  by (auto simp: loadWatchlist_def getItem_def)

lemma loadWatchlist_invalid_json:
  "loadWatchlist (open_storage\<lparr>entries := [WATCHLIST_KEY \<mapsto> ''invalid json'']\<rparr>) = JArray []"
proof -
  have "JSON_parse ''invalid json'' = None"
    by code_simp
  then show ?thesis
    by (intro loadWatchlist_empty) (simp add: open_storage_def)
qed

text \<open>
  C3.  \<open>loadWatchlist\<close> is to return the empty Collection for every stored value that does
  not parse into a list of Items.  It does so when the storage cannot be read, when there
  is no entry, when the entry is the empty string and when the entry is not parseable JSON
  (\<open>loadWatchlist_empty\<close>).  It does not for parseable JSON of another shape: the stored
  text \<^verbatim>\<open>[1]\<close> comes back as a list that holds a number, which is the value of no list of
  Items, and the stored text \<^verbatim>\<open>null\<close> comes back as \<^verbatim>\<open>null\<close>.
\<close>

theorem C3_wrong_shape_is_returned:
  "loadWatchlist (open_storage\<lparr>entries := [WATCHLIST_KEY \<mapsto> ''[1]'']\<rparr>) = JArray [JNumber 1]
   \<and> JArray [JNumber 1] \<notin> range json_of_items
   \<and> loadWatchlist (open_storage\<lparr>entries := [WATCHLIST_KEY \<mapsto> ''null'']\<rparr>) = JNull"
proof -
  have p: "JSON_parse ''[1]'' = Some (JArray [JNumber 1])"
    by code_simp
  have n: "JSON_parse ''null'' = Some JNull"
    by code_simp
  have "loadWatchlist (open_storage\<lparr>entries := [WATCHLIST_KEY \<mapsto> ''[1]'']\<rparr>) = JArray [JNumber 1]"
    by (simp add: loadWatchlist_def getItem_def open_storage_def p)
  moreover have "JArray [JNumber 1] \<notin> range json_of_items"
    by (auto simp: json_of_items_def json_of_item_def)
  moreover have "loadWatchlist (open_storage\<lparr>entries := [WATCHLIST_KEY \<mapsto> ''null'']\<rparr>) = JNull"
    by (simp add: loadWatchlist_def getItem_def open_storage_def n)
  ultimately show ?thesis by simp
qed

section \<open>Clearing the list\<close>

lemma handleClearAll_pending:
  "handleClearAll True p
     = p\<lparr>pending := pending p @ map (\<lambda>item. RemoveCall (item_id item)) (items p)\<rparr>"
proof -
  have "foldl (\<lambda>q item. removeFromWatchlist (item_id item) q) p ys
          = p\<lparr>pending := pending p @ map (\<lambda>item. RemoveCall (item_id item)) ys\<rparr>" for ys
    by (induction ys arbitrary: p) (simp_all add: removeFromWatchlist_def)
  then show ?thesis
    by (simp add: handleClearAll_def)
qed

lemma stamp_removes:
  "stamp c (map (\<lambda>item. RemoveCall (item_id item)) ys) = map (\<lambda>item. Remove (item_id item)) ys"
  by (induction ys arbitrary: c) simp_all

lemma run_updates_removes:
  "run_updates (map (\<lambda>item. Remove (item_id item)) ys) c
     = filter (\<lambda>item. item_id item \<notin> item_id ` set ys) c"
  by (induction ys arbitrary: c) (auto simp: removeFromWatchlist_updater_def intro: filter_cong)

lemma new_array_removes: "ys \<noteq> [] \<Longrightarrow> new_array (map (\<lambda>item. Remove (item_id item)) ys) c"
  by (cases ys) simp_all

lemma entries_rerender:
  "entries (storage p) WATCHLIST_KEY \<noteq> None \<Longrightarrow> entries (storage (rerender p)) WATCHLIST_KEY \<noteq> None"
  by (simp add: rerender_def Let_def entries_saveWatchlist)

lemma clear_all_empties:
  "pending p = [] \<Longrightarrow> items (rerender (handleClearAll True p)) = []"
  by (simp add: handleClearAll_pending items_rerender stamp_removes run_updates_removes)

lemma clear_all_saves_empty_list:
  assumes "pending p = []" "items p \<noteq> []" "\<not> disabled (storage p)" "2 \<le> quota (storage p)"
  shows "entries (storage (rerender (handleClearAll True p))) WATCHLIST_KEY = Some ''[]''"
proof -
  have "stamp (clock (handleClearAll True p)) (pending (handleClearAll True p))
          = map (\<lambda>item. Remove (item_id item)) (items p)"
    using assms(1) by (simp add: handleClearAll_pending stamp_removes)
  moreover have "items (handleClearAll True p) = items p" "storage (handleClearAll True p) = storage p"
    by (simp_all add: handleClearAll_pending)
  ultimately show ?thesis
    using assms(2,3,4)
    by (simp add: rerender_def Let_def new_array_removes run_updates_removes entries_saveWatchlist
        JSON_stringify_Nil)
qed

text \<open>
  C1.  A clear operation is to empty the Collection and to erase the persisted snapshot,
  the entry under the storage key.  The provider has no such operation, and nothing calls
  the Store's \<open>clearWatchlistStorage\<close>, which would remove the entry.  The Clear All of the
  Watchlist page is the clear operation there is: at a provider that shows one saved Item,
  it empties the Collection with the next render, and the entry under the key is then the
  text \<^verbatim>\<open>[]\<close>, not erased.
\<close>

theorem C1_clear_all_keeps_snapshot:
  "items (rerender (handleClearAll True watching)) = []
   \<and> entries (storage (rerender (handleClearAll True watching))) WATCHLIST_KEY = Some ''[]''
   \<and> entries (clearWatchlistStorage (storage watching)) WATCHLIST_KEY = None"
proof -
  have p: "pending watching = []" and i: "items watching \<noteq> []"
    and d: "\<not> disabled (storage watching)" and q: "2 \<le> quota (storage watching)"
    by (simp_all add: watching_def open_storage_def)
  from clear_all_empties[OF p] clear_all_saves_empty_list[OF p i d q] d show ?thesis
    by (simp add: entries_clearWatchlistStorage)
qed

section \<open>The array that getFiltered returns\<close>

lemma getFiltered_ref_contents:
  "arrays (snd (getFiltered_ref r f h)) (fst (getFiltered_ref r f h))
     = getFiltered \<lparr>items = arrays h r, pending = q, storage = ls, clock = c\<rparr> f"
  by (cases f) (simp_all add: getFiltered_ref_def getFiltered_def alloc_def)

text \<open>
  C10.  With the filter \<^verbatim>\<open>all\<close>, \<open>getFiltered\<close> returns the reference of the state's own
  array and allocates nothing.  With a type as filter it returns a reference that was not
  in use before, holding the Items of that type in their order, and leaves every array
  that existed as it was.  So a caller who changes the array obtained with \<^verbatim>\<open>all\<close> changes
  the array of the state, and one who changes a filtered array does not.
\<close>

theorem C10_all_is_the_state_array:
  "items_ref < next_ref h \<Longrightarrow>
     getFiltered_ref items_ref FilterAll h = (items_ref, h)
   \<and> fst (getFiltered_ref items_ref (FilterType t) h) = next_ref h
   \<and> fst (getFiltered_ref items_ref (FilterType t) h) \<noteq> items_ref
   \<and> arrays (snd (getFiltered_ref items_ref (FilterType t) h))
         (fst (getFiltered_ref items_ref (FilterType t) h))
       = filter (\<lambda>item. item_type item = t) (arrays h items_ref)
   \<and> (\<forall>r < next_ref h. arrays (snd (getFiltered_ref items_ref (FilterType t) h)) r = arrays h r)
   \<and> arrays (mutate (fst (getFiltered_ref items_ref FilterAll h)) f
                (snd (getFiltered_ref items_ref FilterAll h))) items_ref
       = f (arrays h items_ref)
   \<and> arrays (mutate (fst (getFiltered_ref items_ref (FilterType t) h)) f
                (snd (getFiltered_ref items_ref (FilterType t) h))) items_ref
       = arrays h items_ref"
  by (simp add: getFiltered_ref_def alloc_def mutate_def)

theorem C10_all_is_the_state_array_witness:
  "(0::nat) < next_ref example_heap
   \<and> getFiltered_ref 0 FilterAll example_heap = (0, example_heap)
   \<and> fst (getFiltered_ref 0 (FilterType Movie) example_heap) = 1
   \<and> arrays (snd (getFiltered_ref 0 (FilterType Movie) example_heap)) 1
       = [newItem fight_club Movie 1000]
   \<and> arrays (mutate (fst (getFiltered_ref 0 FilterAll example_heap)) tl
                (snd (getFiltered_ref 0 FilterAll example_heap))) 0
       = [newItem untitled Tv 2000]
   \<and> arrays (mutate (fst (getFiltered_ref 0 (FilterType Movie) example_heap)) tl
                (snd (getFiltered_ref 0 (FilterType Movie) example_heap))) 0
       = [newItem fight_club Movie 1000, newItem untitled Tv 2000]"
  using C10_all_is_the_state_array[of 0 example_heap Movie tl]
  by (simp add: example_heap_def newItem_def getFiltered_ref_def alloc_def mutate_def)

section \<open>The order of getSorted\<close>

lemma mset_insort_cmp: "mset (insort_cmp cmp x ys) = add_mset x (mset ys)"
  by (induction ys) simp_all

lemma mset_sort_cmp: "mset (sort_cmp cmp xs) = mset xs"
  by (induction xs) (simp_all add: sort_cmp_def mset_insort_cmp)

lemma set_sort_cmp: "set (sort_cmp cmp xs) = set xs"
  using mset_sort_cmp[of cmp xs] by (metis set_mset_mset)

lemma sort_cmp_Cons: "sort_cmp cmp (x # xs) = insort_cmp cmp x (sort_cmp cmp xs)"
  by (simp add: sort_cmp_def)

lemma consistent_onD:
  assumes "consistent_on cmp S" "a \<in> S" "b \<in> S"
  shows "cmp a b < 0 \<longleftrightarrow> 0 < cmp b a"
    and "cmp a b = 0 \<longleftrightarrow> cmp b a = 0"
proof -
  from assms show 1: "cmp a b < 0 \<longleftrightarrow> 0 < cmp b a"
    by (simp add: consistent_on_def)
  from assms have 2: "cmp b a < 0 \<longleftrightarrow> 0 < cmp a b"
    by (simp add: consistent_on_def)
  from 1 2 show "cmp a b = 0 \<longleftrightarrow> cmp b a = 0"
    by linarith
qed

lemma consistent_on_trans:
  "consistent_on cmp S \<Longrightarrow> a \<in> S \<Longrightarrow> b \<in> S \<Longrightarrow> c \<in> S \<Longrightarrow>
     cmp a b \<le> 0 \<Longrightarrow> cmp b c \<le> 0 \<Longrightarrow> cmp a c \<le> 0"
  unfolding consistent_on_def by blast

lemma consistent_on_subset: "consistent_on cmp S \<Longrightarrow> T \<subseteq> S \<Longrightarrow> consistent_on cmp T"
  unfolding consistent_on_def by blast

lemma set_insort_cmp: "set (insort_cmp cmp x ys) = insert x (set ys)"
  using mset_insort_cmp[of cmp x ys] by (metis set_mset_add_mset_insert set_mset_mset)

lemma sorted_insort_cmp:
  assumes "consistent_on cmp S" "x \<in> S" "set ys \<subseteq> S" "sorted_wrt (\<lambda>a b. cmp a b \<le> 0) ys"
  shows "sorted_wrt (\<lambda>a b. cmp a b \<le> 0) (insort_cmp cmp x ys)"
  using assms(3,4)
proof (induction ys)
  case Nil
  then show ?case by simp
next
  case (Cons y ys)
  show ?case
  proof (cases "cmp x y \<le> 0")
    case True
    have "cmp x z \<le> 0" if "z \<in> set ys" for z
    proof -
      from Cons.prems that have "cmp y z \<le> 0" "z \<in> S" "y \<in> S" by auto
      with True assms(1,2) show ?thesis
        using consistent_on_trans[of cmp S x y z] by simp
    qed
    with True Cons.prems show ?thesis by simp
  next
    case False
    with assms(1,2) Cons.prems have "cmp y x \<le> 0"
      using consistent_onD(1)[of cmp S y x] by simp
    with False Cons show ?thesis
      by (simp add: set_insort_cmp)
  qed
qed

lemma sorted_sort_cmp:
  "consistent_on cmp S \<Longrightarrow> set xs \<subseteq> S \<Longrightarrow> sorted_wrt (\<lambda>a b. cmp a b \<le> 0) (sort_cmp cmp xs)"
proof (induction xs)
  case Nil
  then show ?case by (simp add: sort_cmp_def)
next
  case (Cons x xs)
  then show ?case
    by (simp add: sort_cmp_Cons sorted_insort_cmp[of cmp S] set_sort_cmp)
qed

lemma filter_insort_cmp:
  assumes "consistent_on cmp S" "x \<in> S" "t \<in> S" "set ys \<subseteq> S"
  shows "filter (\<lambda>y. cmp t y = 0) (insort_cmp cmp x ys)
           = (if cmp t x = 0 then x # filter (\<lambda>y. cmp t y = 0) ys
              else filter (\<lambda>y. cmp t y = 0) ys)"
  using assms(4)
proof (induction ys)
  case Nil
  then show ?case by simp
next
  case (Cons y ys)
  then have y: "y \<in> S" and ys: "set ys \<subseteq> S" by simp_all
  show ?case
  proof (cases "cmp x y \<le> 0")
    case True
    then show ?thesis by simp
  next
    case False
    have "cmp t y \<noteq> 0" if "cmp t x = 0"
    proof
      assume "cmp t y = 0"
      moreover from that have "cmp x t = 0"
        using consistent_onD(2)[OF assms(1,3,2)] by simp
      ultimately have "cmp x y \<le> 0"
        using consistent_on_trans[OF assms(1,2,3) y] by simp
      with False show False by simp
    qed
    with False Cons.IH[OF ys] show ?thesis by simp
  qed
qed

lemma filter_sort_cmp:
  "consistent_on cmp S \<Longrightarrow> t \<in> S \<Longrightarrow> set xs \<subseteq> S \<Longrightarrow>
     filter (\<lambda>y. cmp t y = 0) (sort_cmp cmp xs) = filter (\<lambda>y. cmp t y = 0) xs"
proof (induction xs)
  case Nil
  then show ?case by (simp add: sort_cmp_def)
next
  case (Cons x xs)
  then show ?case
    by (simp add: sort_cmp_Cons filter_insort_cmp[of cmp S] set_sort_cmp)
qed

lemma consistent_on_addedAt:
  "consistent_on (\<lambda>a b. addedAt b - addedAt a) S"
  "consistent_on (\<lambda>a b. addedAt a - addedAt b) S"
  by (auto simp: consistent_on_def)

lemma filter_addedAt_sort_cmp:
  assumes "consistent_on cmp (set xs)" "\<And>a b. cmp a b = 0 \<longleftrightarrow> addedAt a = addedAt b"
  shows "filter (\<lambda>x. addedAt x = k) (sort_cmp cmp xs) = filter (\<lambda>x. addedAt x = k) xs"
proof (cases "\<exists>t\<in>set xs. addedAt t = k")
  case True
  then obtain t where t: "t \<in> set xs" "addedAt t = k" by blast
  have "(\<lambda>x. addedAt x = k) = (\<lambda>y. cmp t y = 0)"
    using t(2) assms(2) by auto
  with filter_sort_cmp[OF assms(1) t(1) subset_refl] show ?thesis by simp
next
  case False
  then have "filter (\<lambda>x. addedAt x = k) xs = []"
    by (simp add: filter_empty_conv)
  moreover from False have "filter (\<lambda>x. addedAt x = k) (sort_cmp cmp xs) = []"
    by (simp add: filter_empty_conv set_sort_cmp)
  ultimately show ?thesis by simp
qed

lemma consistent_on_title:
  "consistent_on lc (title ` S) \<Longrightarrow> consistent_on (\<lambda>a b. lc (title a) (title b)) S"
  unfolding consistent_on_def by blast

text \<open>
  C7 as stated fails for labels that differ only in case: \<^verbatim>\<open>Apple\<close> and \<^verbatim>\<open>apple\<close> are the same
  once case is ignored, so a case-insensitive stable sort would keep them in their input
  order, but \<^verbatim>\<open>localeCompare\<close> puts \<^verbatim>\<open>apple\<close> first.
\<close>

theorem C7_case_tie_counterexample:
  "map base_letter ''Apple'' = map base_letter ''apple''
   \<and> map title (getSorted letters_localeCompare [labelled ''Apple'', labelled ''apple''] Title)
       = [''apple'', ''Apple'']"
  by (simp add: getSorted_def sort_cmp_def labelled_def letters_localeCompare_def base_letter_def
      case_weight_def is_upper_def)

text \<open>
  C7, amended.  \<open>getSorted\<close> returns a permutation of its input.  For \<open>DateNew\<close> it is in
  descending and for \<open>DateOld\<close> in ascending order of \<open>addedAt\<close>, and Items with the same
  \<open>addedAt\<close> keep their input order.  For \<open>Title\<close> it is in the order of \<^verbatim>\<open>localeCompare\<close> on
  the labels, and Items whose labels \<^verbatim>\<open>localeCompare\<close> reports as equal keep their input
  order, whenever \<^verbatim>\<open>localeCompare\<close> is consistent on the labels present.  Items added at
  100, 300, 200 come out as 300, 200, 100; the labels Banana, apple, Cherry come out as
  apple, Banana, Cherry.
\<close>

theorem C7_getSorted:
  "mset (getSorted lc xs s) = mset xs
   \<and> sorted_wrt (\<lambda>a b. addedAt a \<ge> addedAt b) (getSorted lc xs DateNew)
   \<and> filter (\<lambda>x. addedAt x = k) (getSorted lc xs DateNew) = filter (\<lambda>x. addedAt x = k) xs
   \<and> sorted_wrt (\<lambda>a b. addedAt a \<le> addedAt b) (getSorted lc xs DateOld)
   \<and> filter (\<lambda>x. addedAt x = k) (getSorted lc xs DateOld) = filter (\<lambda>x. addedAt x = k) xs
   \<and> (consistent_on lc (title ` set xs) \<longrightarrow>
        sorted_wrt (\<lambda>a b. lc (title a) (title b) \<le> 0) (getSorted lc xs Title)
        \<and> (\<forall>t\<in>set xs. filter (\<lambda>x. lc (title t) (title x) = 0) (getSorted lc xs Title)
                          = filter (\<lambda>x. lc (title t) (title x) = 0) xs))
   \<and> (map addedAt xs = [100, 300, 200] \<longrightarrow>
        map addedAt (getSorted lc xs DateNew) = [300, 200, 100])
   \<and> (map title xs = [''Banana'', ''apple'', ''Cherry''] \<longrightarrow>
        map title (getSorted letters_localeCompare xs Title) = [''apple'', ''Banana'', ''Cherry''])"
proof -
  have perm: "mset (getSorted lc xs s) = mset xs"
    by (cases s) (simp_all add: getSorted_def mset_sort_cmp)
  have new_sorted: "sorted_wrt (\<lambda>a b. addedAt a \<ge> addedAt b) (getSorted lc xs DateNew)"
    using sorted_sort_cmp[OF consistent_on_addedAt(1) subset_refl, of xs]
    by (simp add: getSorted_def)
  have new_stable:
    "filter (\<lambda>x. addedAt x = k) (getSorted lc xs DateNew) = filter (\<lambda>x. addedAt x = k) xs"
    unfolding getSorted_def sort_by.case
    by (rule filter_addedAt_sort_cmp[OF consistent_on_addedAt(1)]) auto
  have old_sorted: "sorted_wrt (\<lambda>a b. addedAt a \<le> addedAt b) (getSorted lc xs DateOld)"
    using sorted_sort_cmp[OF consistent_on_addedAt(2) subset_refl, of xs]
    by (simp add: getSorted_def)
  have old_stable:
    "filter (\<lambda>x. addedAt x = k) (getSorted lc xs DateOld) = filter (\<lambda>x. addedAt x = k) xs"
    unfolding getSorted_def sort_by.case
    by (rule filter_addedAt_sort_cmp[OF consistent_on_addedAt(2)]) auto
  have by_title: "sorted_wrt (\<lambda>a b. lc (title a) (title b) \<le> 0) (getSorted lc xs Title)
        \<and> (\<forall>t\<in>set xs. filter (\<lambda>x. lc (title t) (title x) = 0) (getSorted lc xs Title)
                          = filter (\<lambda>x. lc (title t) (title x) = 0) xs)"
    if "consistent_on lc (title ` set xs)"
  proof -
    from that have c: "consistent_on (\<lambda>a b. lc (title a) (title b)) (set xs)"
      by (rule consistent_on_title)
    show ?thesis
      using sorted_sort_cmp[OF c subset_refl] filter_sort_cmp[OF c _ subset_refl]
      by (simp add: getSorted_def)
  qed
  have numbers: "map addedAt (getSorted lc xs DateNew) = [300, 200, 100]"
    if "map addedAt xs = [100, 300, 200]"
  proof -
    from that obtain a b c where "xs = [a, b, c]" "addedAt a = 100" "addedAt b = 300" "addedAt c = 200"
      by auto
    then show ?thesis
      by (simp add: getSorted_def sort_cmp_def)
  qed
  have labels: "map title (getSorted letters_localeCompare xs Title) = [''apple'', ''Banana'', ''Cherry'']"
    if "map title xs = [''Banana'', ''apple'', ''Cherry'']"
  proof -
    from that obtain a b c where "xs = [a, b, c]" "title a = ''Banana''" "title b = ''apple''"
      "title c = ''Cherry''"
      by auto
    then show ?thesis
      by (simp add: getSorted_def sort_cmp_def letters_localeCompare_def base_letter_def
          case_weight_def is_upper_def)
  qed
  from perm new_sorted new_stable old_sorted old_stable by_title numbers labels
  show ?thesis by simp
qed

theorem C7_getSorted_witness:
  "consistent_on letters_localeCompare
      (title ` set [labelled ''Banana'', labelled ''apple'', labelled ''Cherry''])
   \<and> map title [labelled ''Banana'', labelled ''apple'', labelled ''Cherry'']
       = [''Banana'', ''apple'', ''Cherry'']
   \<and> map title (getSorted letters_localeCompare
         [labelled ''Banana'', labelled ''apple'', labelled ''Cherry''] Title)
       = [''apple'', ''Banana'', ''Cherry'']
   \<and> sorted_wrt (\<lambda>a b. letters_localeCompare (title a) (title b) \<le> 0)
        (getSorted letters_localeCompare
           [labelled ''Banana'', labelled ''apple'', labelled ''Cherry''] Title)
   \<and> map addedAt [(labelled ''a'')\<lparr>addedAt := 100\<rparr>, (labelled ''b'')\<lparr>addedAt := 300\<rparr>,
                   (labelled ''c'')\<lparr>addedAt := 200\<rparr>] = [100, 300, 200]
   \<and> map addedAt (getSorted letters_localeCompare
         [(labelled ''a'')\<lparr>addedAt := 100\<rparr>, (labelled ''b'')\<lparr>addedAt := 300\<rparr>,
          (labelled ''c'')\<lparr>addedAt := 200\<rparr>] DateNew) = [300, 200, 100]"
proof -
  have c: "consistent_on letters_localeCompare
      (title ` set [labelled ''Banana'', labelled ''apple'', labelled ''Cherry''])"
    by (simp add: consistent_on_def labelled_def letters_localeCompare_def base_letter_def
        case_weight_def is_upper_def)
  have t: "map title [labelled ''Banana'', labelled ''apple'', labelled ''Cherry'']
       = [''Banana'', ''apple'', ''Cherry'']"
    by (simp add: labelled_def)
  have n: "map addedAt [(labelled ''a'')\<lparr>addedAt := 100\<rparr>, (labelled ''b'')\<lparr>addedAt := 300\<rparr>,
                   (labelled ''c'')\<lparr>addedAt := 200\<rparr>] = [100, 300, 200]"
    by simp
  from C7_getSorted[of letters_localeCompare
      "[labelled ''Banana'', labelled ''apple'', labelled ''Cherry'']" Title 0] c t
  have 1: "map title (getSorted letters_localeCompare
         [labelled ''Banana'', labelled ''apple'', labelled ''Cherry''] Title)
       = [''apple'', ''Banana'', ''Cherry'']"
    and 2: "sorted_wrt (\<lambda>a b. letters_localeCompare (title a) (title b) \<le> 0)
        (getSorted letters_localeCompare
           [labelled ''Banana'', labelled ''apple'', labelled ''Cherry''] Title)"
    by blast+
  from C7_getSorted[of letters_localeCompare
      "[(labelled ''a'')\<lparr>addedAt := 100\<rparr>, (labelled ''b'')\<lparr>addedAt := 300\<rparr>,
        (labelled ''c'')\<lparr>addedAt := 200\<rparr>]" DateNew 0] n
  have 3: "map addedAt (getSorted letters_localeCompare
         [(labelled ''a'')\<lparr>addedAt := 100\<rparr>, (labelled ''b'')\<lparr>addedAt := 300\<rparr>,
          (labelled ''c'')\<lparr>addedAt := 200\<rparr>] DateNew) = [300, 200, 100]"
    by blast
  from c t n 1 2 3 show ?thesis by blast
qed

end
